theory Spec2Isabelle
  imports Complex_Main
begin

section \<open>Data model\<close>

text \<open>
  The notebook \<^verbatim>\<open>var-demo.ipynb\<close> (Python 2 kernel) estimates value-at-risk by
  Monte-Carlo simulation. Its values are modelled as follows.
  \<^item> A security symbol is a string; a quantity is a Python float, idealised here as a
    real number (no rounding, no NaN, no infinities). Only the product that selects the
    index of the value at risk is rounded as a float64, see \<open>float64\<close> below.
  \<^item> A portfolio is a Python dict from symbol to quantity. It is modelled by the list of
    its items in iteration order, since \<^verbatim>\<open>simstep\<close> draws one random number per item
    in that order; a dict never holds a key twice, which is the predicate
    \<open>distinct (map fst pf)\<close> wherever a statement needs it. A dict built by \<^verbatim>\<open>dict(pairs)\<close>
    iterates in the order of first insertion.
  \<^item> The return profiles \<^verbatim>\<open>params\<close> are a dict that is only ever read through
    \<^verbatim>\<open>params[sym]\<close>: a partial map to pairs (mean, stddev).
  \<^item> An exception is the left summand of a result.
\<close>

type_synonym symbol = string
type_synonym portfolio = "(symbol \<times> real) list"
type_synonym profiles = "symbol \<rightharpoonup> real \<times> real"

datatype error = KeyError symbol | IndexError

subsection \<open>The random library\<close>

text \<open>
  Python's \<^verbatim>\<open>random\<close> module is not part of the notebook; it is a parameter of the
  model. A generator state has type \<open>'g\<close>.
  \<^item> \<open>seed_gen s\<close> is the state of a fresh generator after \<^verbatim>\<open>prng = Random(); prng.seed(s)\<close>;
  \<^item> \<open>std_normal g\<close> is the next standard-normal deviate of the stream and the state after it;
  \<^item> \<open>randint a b g\<close> is the library's \<^verbatim>\<open>randint(a, b)\<close> on the generator \<open>g\<close>.
\<close>

record 'g random_lib =
  seed_gen :: "int \<Rightarrow> 'g"
  std_normal :: "'g \<Rightarrow> real \<times> 'g"
  randint :: "int \<Rightarrow> int \<Rightarrow> 'g \<Rightarrow> int \<times> 'g"

text \<open>
  \<^verbatim>\<open>Random.normalvariate(mu, sigma)\<close> of the standard library draws a standard-normal
  deviate \<open>z\<close> and returns \<^verbatim>\<open>mu + z*sigma\<close>.
\<close>

definition normalvariate :: "'g random_lib \<Rightarrow> real \<Rightarrow> real \<Rightarrow> 'g \<Rightarrow> real \<times> 'g" where
  "normalvariate L mu sigma g = (case std_normal L g of (z, g') \<Rightarrow> (mu + z * sigma, g'))"

text \<open>The library's contract for \<^verbatim>\<open>randint(a, b)\<close>: a value \<open>N\<close> with \<open>a \<le> N \<le> b\<close>.\<close>

definition randint_in_range :: "'g random_lib \<Rightarrow> bool" where
  "randint_in_range L = (\<forall>a b g. a \<le> b \<longrightarrow> a \<le> fst (randint L a b g) \<and> fst (randint L a b g) \<le> b)"

subsection \<open>Dicts and lists\<close>

text \<open>
  \<^verbatim>\<open>d[k] = v\<close> on the item list: an existing key keeps its place and gets the new value,
  a new key goes to the end.
\<close>

fun setitem :: "'k \<Rightarrow> 'v \<Rightarrow> ('k \<times> 'v) list \<Rightarrow> ('k \<times> 'v) list" where
  "setitem k v [] = [(k, v)]"
| "setitem k v ((k', v') # d) = (if k' = k then (k, v) # d else (k', v') # setitem k v d)"

text \<open>\<^verbatim>\<open>dict(pairs)\<close>: the pairs are stored one after the other into an empty dict.\<close>

definition dict :: "('k \<times> 'v) list \<Rightarrow> ('k \<times> 'v) list" where
  "dict pairs = foldl (\<lambda>d (k, v). setitem k v d) [] pairs"

text \<open>\<^verbatim>\<open>pf.copy()\<close>: a new dict with the same items.\<close>

definition copy :: "('k \<times> 'v) list \<Rightarrow> ('k \<times> 'v) list" where
  "copy pf = pf"

text \<open>\<^verbatim>\<open>xs[i]\<close> on a list: a negative index counts from the end, any other index out of range raises.\<close>

definition getitem :: "'a list \<Rightarrow> int \<Rightarrow> error + 'a" where
  "getitem xs i =
     (if 0 \<le> i \<and> i < int (length xs) then Inr (xs ! nat i)
      else if i < 0 \<and> - int (length xs) \<le> i then Inr (xs ! nat (int (length xs) + i))
      else Inl IndexError)"

text \<open>\<^verbatim>\<open>int(x)\<close> of a float truncates towards zero.\<close>

definition py_int :: "real \<Rightarrow> int" where
  "py_int x = (if 0 \<le> x then \<lfloor>x\<rfloor> else \<lceil>x\<rceil>)"

text \<open>A list comprehension \<^verbatim>\<open>[f(i) for i in is]\<close> whose element expression may raise.\<close>

fun comprehension :: "('i \<Rightarrow> error + 'a) \<Rightarrow> 'i list \<Rightarrow> error + 'a list" where
  "comprehension f [] = Inr []"
| "comprehension f (i # is) =
     (case f i of
        Inl e \<Rightarrow> Inl e
      | Inr y \<Rightarrow> (case comprehension f is of Inl e \<Rightarrow> Inl e | Inr ys \<Rightarrow> Inr (y # ys)))"

section \<open>The simulation\<close>

text \<open>
  \<^verbatim>\<open>
  def portfolio_value(pf):
      return sum([v for v in pf.values()])
  \<close>
\<close>

definition portfolio_value :: "portfolio \<Rightarrow> real" where
  "portfolio_value pf = sum_list (map snd pf)"

text \<open>
  \<^verbatim>\<open>
  def seeds(count):
      return [randint(0, 1 << 32 - 1) for i in range(count)]
  \<close>
  In Python \<^verbatim>\<open>-\<close> binds tighter than \<^verbatim>\<open><<\<close>: the upper bound is \<^verbatim>\<open>1 << (32 - 1)\<close>.
  \<^verbatim>\<open>range(count)\<close> is empty for a negative count. The generator is the module's global one.
\<close>

definition seed_bound :: int where
  "seed_bound = push_bit (32 - 1) 1"

fun seeds_from :: "'g random_lib \<Rightarrow> nat \<Rightarrow> 'g \<Rightarrow> int list \<times> 'g" where
  "seeds_from L 0 g = ([], g)"
| "seeds_from L (Suc n) g =
     (case randint L 0 seed_bound g of
        (s, g1) \<Rightarrow> (case seeds_from L n g1 of (rest, g2) \<Rightarrow> (s # rest, g2)))"

definition seeds :: "'g random_lib \<Rightarrow> int \<Rightarrow> 'g \<Rightarrow> int list \<times> 'g" where
  "seeds L count g = seeds_from L (nat count) g"

text \<open>
  \<^verbatim>\<open>
  def simstep(pf, params, prng):
      def daily_return(sym):
          mean, stddev = params[sym]
          change = (prng.normalvariate(mean, stddev) + 100) / 100.0
          return change
      return dict([(s, daily_return(s) * v) for s, v in pf.items()])
  \<close>
  \<open>daily_return\<close> raises \<open>KeyError\<close> before it draws when the symbol has no profile.
  \<open>simstep_items\<close> is the list comprehension: the items are visited in order, each one
  drawing from the generator the previous one left.
\<close>

definition daily_return :: "'g random_lib \<Rightarrow> profiles \<Rightarrow> symbol \<Rightarrow> 'g \<Rightarrow> error + real \<times> 'g" where
  "daily_return L params symb prng =
     (case params symb of
        None \<Rightarrow> Inl (KeyError symb)
      | Some (mean, stddev) \<Rightarrow>
          (case normalvariate L mean stddev prng of (x, prng') \<Rightarrow> Inr ((x + 100) / 100, prng')))"

fun simstep_items :: "'g random_lib \<Rightarrow> profiles \<Rightarrow> portfolio \<Rightarrow> 'g \<Rightarrow> error + portfolio \<times> 'g" where
  "simstep_items L params [] prng = Inr ([], prng)"
| "simstep_items L params ((s, v) # rest) prng =
     (case daily_return L params s prng of
        Inl e \<Rightarrow> Inl e
      | Inr (change, prng1) \<Rightarrow>
          (case simstep_items L params rest prng1 of
             Inl e \<Rightarrow> Inl e
           | Inr (out, prng2) \<Rightarrow> Inr ((s, change * v) # out, prng2)))"

definition simstep :: "'g random_lib \<Rightarrow> portfolio \<Rightarrow> profiles \<Rightarrow> 'g \<Rightarrow> error + portfolio \<times> 'g" where
  "simstep L pf params prng =
     (case simstep_items L params pf prng of
        Inl e \<Rightarrow> Inl e
      | Inr (out, prng') \<Rightarrow> Inr (dict out, prng'))"

text \<open>
  \<^verbatim>\<open>
  def simulate(seed, pf, params, days):
      from random import Random
      prng = Random()
      prng.seed(seed)
      pf = pf.copy()
      for day in range(days):
          pf = simstep(pf, params, prng)
      return pf
  \<close>
  \<open>sim_days\<close> is the loop, on the number of days left; \<^verbatim>\<open>range(days)\<close> is empty for a
  negative \<^verbatim>\<open>days\<close>.
\<close>

fun sim_days :: "'g random_lib \<Rightarrow> nat \<Rightarrow> portfolio \<Rightarrow> profiles \<Rightarrow> 'g \<Rightarrow> error + portfolio" where
  "sim_days L 0 pf params prng = Inr pf"
| "sim_days L (Suc n) pf params prng =
     (case simstep L pf params prng of
        Inl e \<Rightarrow> Inl e
      | Inr (pf', prng') \<Rightarrow> sim_days L n pf' params prng')"

definition simulate :: "'g random_lib \<Rightarrow> int \<Rightarrow> portfolio \<Rightarrow> profiles \<Rightarrow> int \<Rightarrow> error + portfolio" where
  "simulate L seed pf params days = sim_days L (nat days) (copy pf) params (seed_gen L seed)"

text \<open>
  \<^verbatim>\<open>
  def simulate_with_history(seed, pf, params, days):
      from random import Random
      prng = Random()
      prng.seed(seed)
      pf = pf.copy()
      values = [portfolio_value(pf)]
      for day in range(days):
          pf = simstep(pf, params, prng)
          values.append(portfolio_value(pf))
      return values
  \<close>
\<close>

fun hist_days :: "'g random_lib \<Rightarrow> nat \<Rightarrow> portfolio \<Rightarrow> profiles \<Rightarrow> 'g \<Rightarrow> real list \<Rightarrow> error + real list" where
  "hist_days L 0 pf params prng values = Inr values"
| "hist_days L (Suc n) pf params prng values =
     (case simstep L pf params prng of
        Inl e \<Rightarrow> Inl e
      | Inr (pf', prng') \<Rightarrow> hist_days L n pf' params prng' (values @ [portfolio_value pf']))"

definition simulate_with_history ::
  "'g random_lib \<Rightarrow> int \<Rightarrow> portfolio \<Rightarrow> profiles \<Rightarrow> int \<Rightarrow> error + real list" where
  "simulate_with_history L seed pf params days =
     (let pf1 = copy pf
      in hist_days L (nat days) pf1 params (seed_gen L seed) [portfolio_value pf1])"

section \<open>Aggregation of the trial outcomes\<close>

text \<open>
  \<^verbatim>\<open>
  simulated_results = list(zip(results.collect(), seed_rdd.collect()))
  simulated_values = [v for (v, _) in simulated_results]
  simulated_values.sort()
  \<close>
\<close>

definition simulated_values :: "(real \<times> int) list \<Rightarrow> real list" where
  "simulated_values simulated_results = sort (map fst simulated_results)"

text \<open>
  The index of the value at risk is computed in floating point, and there the rounding
  decides which element is reported, so this product is not idealised. A float64 has a
  53-bit significand: \<open>float64 x\<close> is the float64 nearest to the real \<open>x\<close>, ties going to
  the even significand (the rounding of IEEE 754 arithmetic and of Python's decimal
  literals). The exponent range is left unbounded; \<open>is_float64\<close> holds of zero and of the
  normal float64 numbers, for which that makes no difference.
\<close>

definition round_half_even :: "real \<Rightarrow> int" where
  "round_half_even y =
     (if y - of_int \<lfloor>y\<rfloor> < 1 / 2 then \<lfloor>y\<rfloor>
      else if 1 / 2 < y - of_int \<lfloor>y\<rfloor> then \<lfloor>y\<rfloor> + 1
      else if even \<lfloor>y\<rfloor> then \<lfloor>y\<rfloor> else \<lfloor>y\<rfloor> + 1)"

definition float64 :: "real \<Rightarrow> real" where
  "float64 x =
     (if x = 0 then 0
      else of_int (round_half_even (x / 2 powr (of_int \<lfloor>log 2 \<bar>x\<bar>\<rfloor> - 52)))
             * 2 powr (of_int \<lfloor>log 2 \<bar>x\<bar>\<rfloor> - 52))"

definition is_float64 :: "real \<Rightarrow> bool" where
  "is_float64 x =
     (float64 x = x \<and> (x = 0 \<or> (2 powr (- 1022) \<le> \<bar>x\<bar> \<and> \<bar>x\<bar> < 2 powr 1024)))"

text \<open>
  \<^verbatim>\<open>
  percentage_var = 0.05
  simulated_values[int(len(simulated_values) * percentage_var)]
  \<close>
  The length is converted to a float and multiplied by the float \<^verbatim>\<open>percentage_var\<close>; the
  product is rounded to a float64, and \<^verbatim>\<open>int\<close> truncates it.
\<close>

definition value_at_risk :: "real list \<Rightarrow> real \<Rightarrow> error + real" where
  "value_at_risk values percentage_var =
     getitem values (py_int (float64 (float64 (real (length values)) * percentage_var)))"

text \<open>
  \<^verbatim>\<open>
  simulated_results.sort()
  eleven_results = [simulated_results[int((len(simulated_results) - 1) * i / 10)] for i in range(11)]
  \<close>
  The kernel is Python 2: \<^verbatim>\<open>/\<close> between two ints is floor division, and \<^verbatim>\<open>int\<close> of
  an int is that int. The argument is the list after \<^verbatim>\<open>sort()\<close>.
\<close>

definition eleven_results :: "'a list \<Rightarrow> error + 'a list" where
  "eleven_results simulated_results =
     comprehension
       (\<lambda>i. getitem simulated_results ((int (length simulated_results) - 1) * i div 10))
       (map int [0..<11])"

text \<open>
  The index of decile sampling in the words of the specification:
  \<open>round((L-1) * i / k)\<close> with \<open>k = 10\<close>.
\<close>

definition decile_index_spec :: "nat \<Rightarrow> nat \<Rightarrow> int" where
  "decile_index_spec L i = round ((real L - 1) * real i / 10)"

section \<open>The simulation on a store of objects\<close>

text \<open>
  A Python variable holds a reference to a dict object, and \<^verbatim>\<open>simulate\<close> receives the
  caller's reference. To speak about what a call does to the caller's objects, the same
  functions are given once more on an explicit store: \<open>heap\<close> maps an address to the
  items of the dict that lives there, \<open>nxt\<close> is the next free address, and
  \<open>global_rng\<close> is the state of the module-level generator behind \<^verbatim>\<open>randint\<close>.
  \<^verbatim>\<open>pf.copy()\<close> and \<^verbatim>\<open>dict(...)\<close> allocate a new object; the code has no statement that
  stores into an existing dict. The trial's generator \<^verbatim>\<open>prng\<close> is an object local to the
  call and is passed as a value.
\<close>

record 'g world =
  heap :: "nat \<Rightarrow> portfolio"
  nxt :: nat
  global_rng :: 'g

definition alloc :: "portfolio \<Rightarrow> 'g world \<Rightarrow> nat \<times> 'g world" where
  "alloc d w = (nxt w, w\<lparr>heap := (heap w)(nxt w := d), nxt := Suc (nxt w)\<rparr>)"

definition simstep_st ::
  "'g random_lib \<Rightarrow> nat \<Rightarrow> profiles \<Rightarrow> 'g \<Rightarrow> 'g world \<Rightarrow> (error + nat \<times> 'g) \<times> 'g world" where
  "simstep_st L pf params prng w =
     (case simstep_items L params (heap w pf) prng of
        Inl e \<Rightarrow> (Inl e, w)
      | Inr (out, prng') \<Rightarrow> (case alloc (dict out) w of (r, w') \<Rightarrow> (Inr (r, prng'), w')))"

fun sim_days_st ::
  "'g random_lib \<Rightarrow> nat \<Rightarrow> nat \<Rightarrow> profiles \<Rightarrow> 'g \<Rightarrow> 'g world \<Rightarrow> (error + nat) \<times> 'g world" where
  "sim_days_st L 0 pf params prng w = (Inr pf, w)"
| "sim_days_st L (Suc n) pf params prng w =
     (case simstep_st L pf params prng w of
        (Inl e, w') \<Rightarrow> (Inl e, w')
      | (Inr (pf', prng'), w') \<Rightarrow> sim_days_st L n pf' params prng' w')"

definition simulate_st ::
  "'g random_lib \<Rightarrow> int \<Rightarrow> nat \<Rightarrow> profiles \<Rightarrow> int \<Rightarrow> 'g world \<Rightarrow> (error + nat) \<times> 'g world" where
  "simulate_st L seed pf params days w =
     (case alloc (copy (heap w pf)) w of
        (pf1, w1) \<Rightarrow> sim_days_st L (nat days) pf1 params (seed_gen L seed) w1)"

fun hist_days_st ::
  "'g random_lib \<Rightarrow> nat \<Rightarrow> nat \<Rightarrow> profiles \<Rightarrow> 'g \<Rightarrow> real list \<Rightarrow> 'g world
     \<Rightarrow> (error + real list) \<times> 'g world" where
  "hist_days_st L 0 pf params prng values w = (Inr values, w)"
| "hist_days_st L (Suc n) pf params prng values w =
     (case simstep_st L pf params prng w of
        (Inl e, w') \<Rightarrow> (Inl e, w')
      | (Inr (pf', prng'), w') \<Rightarrow>
          hist_days_st L n pf' params prng' (values @ [portfolio_value (heap w' pf')]) w')"

definition simulate_with_history_st ::
  "'g random_lib \<Rightarrow> int \<Rightarrow> nat \<Rightarrow> profiles \<Rightarrow> int \<Rightarrow> 'g world \<Rightarrow> (error + real list) \<times> 'g world" where
  "simulate_with_history_st L seed pf params days w =
     (case alloc (copy (heap w pf)) w of
        (pf1, w1) \<Rightarrow>
          hist_days_st L (nat days) pf1 params (seed_gen L seed) [portfolio_value (heap w1 pf1)] w1)"

text \<open>\<^verbatim>\<open>seeds(count)\<close> on the store: it advances the module-level generator.\<close>

definition seeds_st :: "'g random_lib \<Rightarrow> int \<Rightarrow> 'g world \<Rightarrow> int list \<times> 'g world" where
  "seeds_st L count w =
     (case seeds L count (global_rng w) of (xs, g') \<Rightarrow> (xs, w\<lparr>global_rng := g'\<rparr>))"

text \<open>What a caller observes of a call of \<^verbatim>\<open>simulate\<close>: the exception, or the items of the
  dict the returned reference points to.\<close>

definition outcome :: "(error + nat) \<times> 'g world \<Rightarrow> error + portfolio" where
  "outcome res = (case res of (Inl e, w) \<Rightarrow> Inl e | (Inr r, w) \<Rightarrow> Inr (heap w r))"

section \<open>A concrete generator\<close>

text \<open>
  A small linear generator that instantiates the library parameter where a statement
  is evaluated at a concrete input.
\<close>

definition demo_lib :: "nat random_lib" where
  "demo_lib =
     \<lparr> seed_gen = (\<lambda>s. nat \<bar>s\<bar>),
       std_normal = (\<lambda>g. (real (g mod 5) - 2, Suc g)),
       randint = (\<lambda>a b g. (a + int g mod (b - a + 1), 7 * g + 3)) \<rparr>"

definition demo_world :: "nat world" where
  "demo_world =
     \<lparr> heap = (\<lambda>a. if a = 0 then [(''AAA'', 100), (''BBB'', 50)] else []),
       nxt = 1,
       global_rng = 42 \<rparr>"

definition demo_profiles :: profiles where
  "demo_profiles = [''AAA'' \<mapsto> (1, 2), ''BBB'' \<mapsto> (0, 1)]"

section \<open>Properties\<close>

subsection \<open>Dicts\<close>

lemma setitem_fresh: "k \<notin> fst ` set d \<Longrightarrow> setitem k v d = d @ [(k, v)]"
  by (induction d) auto

lemma setitem_keys: "fst ` set (setitem k v d) = insert k (fst ` set d)"
proof (induction d)
  case Nil
  show ?case by simp
next
  case (Cons p d)
  obtain k' v' where "p = (k', v')" by (cases p)
  with Cons show ?case by (cases "k' = k") auto
qed

lemma setitem_distinct: "distinct (map fst d) \<Longrightarrow> distinct (map fst (setitem k v d))"
proof (induction d)
  case Nil
  show ?case by simp
next
  case (Cons p d)
  obtain k' v' where "p = (k', v')" by (cases p)
  with Cons show ?case by (cases "k' = k") (auto simp: setitem_keys)
qed

lemma foldl_setitem_keys:
  "fst ` set (foldl (\<lambda>d (k, v). setitem k v d) d0 xs) = fst ` set d0 \<union> fst ` set xs"
proof (induction xs arbitrary: d0)
  case Nil
  show ?case by simp
next
  case (Cons x xs)
  obtain k v where "x = (k, v)" by (cases x)
  with Cons [of "setitem k v d0"] show ?case by (simp add: setitem_keys)
qed

lemma foldl_setitem_distinct:
  "distinct (map fst d0) \<Longrightarrow> distinct (map fst (foldl (\<lambda>d (k, v). setitem k v d) d0 xs))"
  by (induction xs arbitrary: d0) (auto simp: setitem_distinct split: prod.splits)

lemma foldl_setitem_fresh:
  "distinct (map fst (d0 @ xs)) \<Longrightarrow> foldl (\<lambda>d (k, v). setitem k v d) d0 xs = d0 @ xs"
proof (induction xs arbitrary: d0)
  case Nil
  then show ?case by simp
next
  case (Cons x xs)
  obtain k v where x: "x = (k, v)" by (cases x)
  from Cons.prems x have fresh: "k \<notin> fst ` set d0" by auto
  from Cons.prems x have "distinct (map fst ((d0 @ [(k, v)]) @ xs))" by auto
  from Cons.IH [OF this] show ?case using fresh x by (simp add: setitem_fresh)
qed

lemma dict_keys: "fst ` set (dict xs) = fst ` set xs"
  by (simp add: dict_def foldl_setitem_keys)

lemma dict_distinct: "distinct (map fst (dict xs))"
  by (simp add: dict_def foldl_setitem_distinct)

lemma dict_of_distinct: "distinct (map fst xs) \<Longrightarrow> dict xs = xs"
  using foldl_setitem_fresh [of "[]" xs] by (simp add: dict_def)

lemma simstep_items_keys:
  "simstep_items L params pf g = Inr (out, g') \<Longrightarrow> map fst out = map fst pf"
  by (induction pf arbitrary: g out g') (auto split: sum.splits prod.splits)

lemma daily_return_Some:
  "params s = Some (m, sd) \<Longrightarrow>
   daily_return L params s g =
     Inr ((fst (normalvariate L m sd g) + 100) / 100, snd (normalvariate L m sd g))"
  by (simp add: daily_return_def split: prod.splits)

lemma daily_return_ok:
  "params s \<noteq> None \<Longrightarrow> \<exists>c g'. daily_return L params s g = Inr (c, g')"
proof -
  assume "params s \<noteq> None"
  then obtain m sd where "params s = Some (m, sd)" by auto
  then have "daily_return L params s g =
      Inr ((fst (normalvariate L m sd g) + 100) / 100, snd (normalvariate L m sd g))"
    by (rule daily_return_Some)
  then show ?thesis by blast
qed

lemma daily_return_error:
  "daily_return L params s g = Inl e \<longleftrightarrow> params s = None \<and> e = KeyError s"
  by (auto simp: daily_return_def split: option.splits prod.splits)

lemma simstep_items_ok:
  "\<forall>s \<in> fst ` set pf. params s \<noteq> None \<Longrightarrow> \<exists>out g'. simstep_items L params pf g = Inr (out, g')"
proof (induction pf arbitrary: g)
  case Nil
  then show ?case by simp
next
  case (Cons x pf)
  obtain s v where x: "x = (s, v)" by (cases x)
  from Cons.prems x obtain c g1 where d: "daily_return L params s g = Inr (c, g1)"
    using daily_return_ok [of params s L g] by auto
  from Cons.prems obtain out g2 where "simstep_items L params pf g1 = Inr (out, g2)"
    using Cons.IH [of g1] by auto
  with d x show ?case by simp
qed

lemma simstep_items_error:
  "simstep_items L params pf g = Inl e \<Longrightarrow> \<exists>s \<in> fst ` set pf. params s = None \<and> e = KeyError s"
proof (induction pf arbitrary: g)
  case Nil
  then show ?case by simp
next
  case (Cons x pf)
  obtain k v where x: "x = (k, v)" by (cases x)
  show ?case
  proof (cases "daily_return L params k g")
    case (Inl e')
    with Cons.prems x have "e' = e" by simp
    with Inl have "params k = None \<and> e = KeyError k" by (simp add: daily_return_error)
    with x show ?thesis by auto
  next
    case (Inr p)
    obtain c g1 where p: "p = (c, g1)" by (cases p)
    from Cons.prems x Inr p have "simstep_items L params pf g1 = Inl e"
      by (simp split: sum.splits prod.splits)
    from Cons.IH [OF this] show ?thesis by auto
  qed
qed

lemma simstep_items_missing:
  "s \<in> fst ` set pf \<Longrightarrow> params s = None \<Longrightarrow> \<exists>e. simstep_items L params pf g = Inl e"
proof (induction pf arbitrary: g)
  case Nil
  then show ?case by simp
next
  case (Cons x pf)
  obtain k v where x: "x = (k, v)" by (cases x)
  show ?case
  proof (cases "daily_return L params k g")
    case (Inl e)
    with x show ?thesis by simp
  next
    case (Inr p)
    obtain c g1 where p: "p = (c, g1)" by (cases p)
    from Inr p have "params k \<noteq> None" by (auto simp: daily_return_def split: option.splits)
    with Cons.prems x have "s \<in> fst ` set pf" by auto
    from Cons.IH [OF this Cons.prems(2), of g1] obtain e where "simstep_items L params pf g1 = Inl e" ..
    with Inr p x show ?thesis by simp
  qed
qed

subsection \<open>One step and the loops\<close>

lemma simstep_Inr:
  assumes "simstep L pf params g = Inr (pf', g')"
  shows "fst ` set pf' = fst ` set pf" and "distinct (map fst pf')"
    and "distinct (map fst pf) \<Longrightarrow> map fst pf' = map fst pf"
proof -
  from assms obtain out where out: "simstep_items L params pf g = Inr (out, g')" and pf': "pf' = dict out"
    by (auto simp: simstep_def split: sum.splits prod.splits)
  from simstep_items_keys [OF out] have keys: "map fst out = map fst pf" .
  then have "fst ` set out = fst ` set pf" by (metis set_map)
  with pf' show "fst ` set pf' = fst ` set pf" by (simp add: dict_keys)
  from pf' show "distinct (map fst pf')" by (simp add: dict_distinct)
  assume "distinct (map fst pf)"
  with keys have "dict out = out" by (simp add: dict_of_distinct)
  with pf' keys show "map fst pf' = map fst pf" by simp
qed

lemma simstep_ok:
  assumes "\<forall>s \<in> fst ` set pf. params s \<noteq> None"
  shows "\<exists>pf' g'. simstep L pf params g = Inr (pf', g')"
proof -
  from simstep_items_ok [where params = params, OF assms, of L g] obtain out g' where "simstep_items L params pf g = Inr (out, g')"
    by blast
  then show ?thesis by (simp add: simstep_def)
qed

lemma simstep_error:
  "simstep L pf params g = Inl e \<Longrightarrow> \<exists>s \<in> fst ` set pf. params s = None \<and> e = KeyError s"
  using simstep_items_error [of L params pf g e]
  by (auto simp: simstep_def split: sum.splits prod.splits)

lemma simstep_missing:
  assumes "s \<in> fst ` set pf" and "params s = None"
  shows "\<exists>e. simstep L pf params g = Inl e"
proof -
  from simstep_items_missing [where params = params and s = s, OF assms, of L g] obtain e where "simstep_items L params pf g = Inl e" ..
  then show ?thesis by (simp add: simstep_def)
qed

lemma sim_days_error:
  "sim_days L n pf params g = Inl e \<Longrightarrow> \<exists>s \<in> fst ` set pf. params s = None \<and> e = KeyError s"
proof (induction n arbitrary: pf g)
  case 0
  then show ?case by simp
next
  case (Suc n)
  show ?case
  proof (cases "simstep L pf params g")
    case (Inl e')
    with Suc.prems have "e' = e" by simp
    with Inl have "simstep L pf params g = Inl e" by simp
    then show ?thesis by (rule simstep_error)
  next
    case (Inr p)
    obtain pf' g' where p: "p = (pf', g')" by (cases p)
    from Suc.prems Inr p have "sim_days L n pf' params g' = Inl e" by simp
    from Suc.IH [OF this] simstep_Inr(1) [of L pf params g pf' g'] Inr p show ?thesis by simp
  qed
qed

lemma sim_days_Inr:
  "sim_days L n pf params g = Inr pf' \<Longrightarrow>
   fst ` set pf' = fst ` set pf \<and> (distinct (map fst pf) \<longrightarrow> map fst pf' = map fst pf)"
proof (induction n arbitrary: pf g)
  case 0
  then show ?case by simp
next
  case (Suc n)
  from Suc.prems obtain pf1 g1 where step: "simstep L pf params g = Inr (pf1, g1)"
    and rest: "sim_days L n pf1 params g1 = Inr pf'"
    by (auto split: sum.splits prod.splits)
  from Suc.IH [OF rest] simstep_Inr [OF step] show ?case by simp
qed

lemma sim_days_ok:
  assumes "\<forall>s \<in> fst ` set pf. params s \<noteq> None"
  shows "\<exists>pf'. sim_days L n pf params g = Inr pf'"
proof (cases "sim_days L n pf params g")
  case (Inl e)
  from sim_days_error [OF this] assms show ?thesis by auto
next
  case (Inr pf')
  then show ?thesis by simp
qed

lemma sim_days_missing:
  assumes "s \<in> fst ` set pf" and "params s = None"
  shows "\<exists>e. sim_days L (Suc n) pf params g = Inl e"
proof -
  from simstep_missing [where params = params and s = s, OF assms, of L g] obtain e where "simstep L pf params g = Inl e" ..
  then show ?thesis by simp
qed

lemma hist_days_sim_days:
  "case sim_days L n pf params g of
     Inl e \<Rightarrow> hist_days L n pf params g vs = Inl e
   | Inr pf' \<Rightarrow> \<exists>ws. hist_days L n pf params g vs = Inr (vs @ ws) \<and> length ws = n \<and>
                  (ws \<noteq> [] \<longrightarrow> last ws = portfolio_value pf')"
proof (induction n arbitrary: pf g vs)
  case 0
  show ?case by simp
next
  case (Suc n)
  show ?case
  proof (cases "simstep L pf params g")
    case (Inl e)
    then show ?thesis by simp
  next
    case (Inr p)
    obtain pf1 g1 where p: "p = (pf1, g1)" by (cases p)
    show ?thesis
    proof (cases "sim_days L n pf1 params g1")
      case (Inl e)
      with Suc.IH [of pf1 g1 "vs @ [portfolio_value pf1]"] Inr p show ?thesis by simp
    next
      case r: (Inr pf')
      with Suc.IH [of pf1 g1 "vs @ [portfolio_value pf1]"]
      obtain ws where h: "hist_days L n pf1 params g1 (vs @ [portfolio_value pf1]) = Inr ((vs @ [portfolio_value pf1]) @ ws)"
        and l: "length ws = n" and la: "ws \<noteq> [] \<longrightarrow> last ws = portfolio_value pf'"
        by auto
      have n0: "ws = [] \<Longrightarrow> pf' = pf1" using l r by auto
      have "last (portfolio_value pf1 # ws) = portfolio_value pf'"
        using la n0 by (cases "ws = []") auto
      with h l Inr p r show ?thesis
        by (auto intro!: exI [of _ "portfolio_value pf1 # ws"])
    qed
  qed
qed

lemma simstep_items_factors:
  "simstep_items L params pf g = Inr (out, g') \<Longrightarrow>
   list_all2 (\<lambda>(s, v) (s', v'). s' = s \<and>
       (\<exists>mean stddev h. params s = Some (mean, stddev) \<and>
          v' = (fst (normalvariate L mean stddev h) + 100) / 100 * v)) pf out"
proof (induction pf arbitrary: g out)
  case Nil
  then show ?case by simp
next
  case (Cons x pf)
  obtain s v where x: "x = (s, v)" by (cases x)
  from Cons.prems x obtain c g1 out1 where d: "daily_return L params s g = Inr (c, g1)"
    and r: "simstep_items L params pf g1 = Inr (out1, g')" and o: "out = (s, c * v) # out1"
    by (auto split: sum.splits prod.splits)
  from d obtain mean stddev where p: "params s = Some (mean, stddev)"
    and c: "c = (fst (normalvariate L mean stddev g) + 100) / 100"
    by (auto simp: daily_return_def split: option.splits prod.splits)
  from Cons.IH [OF r] x o p c show ?case by auto
qed

subsection \<open>The store\<close>

lemma simstep_st_eq:
  "simstep_st L r params g w =
     (case simstep L (heap w r) params g of
        Inl e \<Rightarrow> (Inl e, w)
      | Inr (pf', g') \<Rightarrow>
          (Inr (nxt w, g'), w\<lparr>heap := (heap w)(nxt w := pf'), nxt := Suc (nxt w)\<rparr>))"
  by (simp add: simstep_st_def simstep_def alloc_def split: sum.splits prod.splits)

lemma sim_days_st_sound:
  "outcome (sim_days_st L n r params g w) = sim_days L n (heap w r) params g \<and>
   (\<forall>a. a < nxt w \<longrightarrow> heap (snd (sim_days_st L n r params g w)) a = heap w a) \<and>
   nxt w \<le> nxt (snd (sim_days_st L n r params g w)) \<and>
   global_rng (snd (sim_days_st L n r params g w)) = global_rng w"
proof (induction n arbitrary: r g w)
  case 0
  show ?case by (simp add: outcome_def)
next
  case (Suc n)
  show ?case
  proof (cases "simstep L (heap w r) params g")
    case (Inl e)
    then show ?thesis by (simp add: simstep_st_eq outcome_def)
  next
    case (Inr p)
    obtain pf' g' where p: "p = (pf', g')" by (cases p)
    let ?w1 = "w\<lparr>heap := (heap w)(nxt w := pf'), nxt := Suc (nxt w)\<rparr>"
    have st: "sim_days_st L (Suc n) r params g w = sim_days_st L n (nxt w) params g' ?w1"
      using Inr p by (simp add: simstep_st_eq)
    from Suc.IH [of "nxt w" g' ?w1] Inr p show ?thesis
      unfolding st by simp
  qed
qed

lemma hist_days_st_sound:
  "fst (hist_days_st L n r params g vs w) = hist_days L n (heap w r) params g vs \<and>
   (\<forall>a. a < nxt w \<longrightarrow> heap (snd (hist_days_st L n r params g vs w)) a = heap w a) \<and>
   nxt w \<le> nxt (snd (hist_days_st L n r params g vs w)) \<and>
   global_rng (snd (hist_days_st L n r params g vs w)) = global_rng w"
proof (induction n arbitrary: r g vs w)
  case 0
  show ?case by simp
next
  case (Suc n)
  show ?case
  proof (cases "simstep L (heap w r) params g")
    case (Inl e)
    then show ?thesis by (simp add: simstep_st_eq)
  next
    case (Inr p)
    obtain pf' g' where p: "p = (pf', g')" by (cases p)
    let ?w1 = "w\<lparr>heap := (heap w)(nxt w := pf'), nxt := Suc (nxt w)\<rparr>"
    have st: "hist_days_st L (Suc n) r params g vs w =
        hist_days_st L n (nxt w) params g' (vs @ [portfolio_value pf']) ?w1"
      using Inr p by (simp add: simstep_st_eq)
    from Suc.IH [of "nxt w" g' "vs @ [portfolio_value pf']" ?w1] Inr p show ?thesis
      unfolding st by simp
  qed
qed

lemma simulate_st_sound:
  "outcome (simulate_st L seed r params days w) = simulate L seed (heap w r) params days \<and>
   (\<forall>a. a < nxt w \<longrightarrow> heap (snd (simulate_st L seed r params days w)) a = heap w a) \<and>
   global_rng (snd (simulate_st L seed r params days w)) = global_rng w"
  using sim_days_st_sound [of L "nat days" "nxt w" params "seed_gen L seed"
      "w\<lparr>heap := (heap w)(nxt w := heap w r), nxt := Suc (nxt w)\<rparr>"]
  by (simp add: simulate_st_def simulate_def alloc_def copy_def)

lemma simulate_with_history_st_sound:
  "fst (simulate_with_history_st L seed r params days w)
     = simulate_with_history L seed (heap w r) params days \<and>
   (\<forall>a. a < nxt w \<longrightarrow> heap (snd (simulate_with_history_st L seed r params days w)) a = heap w a) \<and>
   global_rng (snd (simulate_with_history_st L seed r params days w)) = global_rng w"
  using hist_days_st_sound [of L "nat days" "nxt w" params "seed_gen L seed"
      "[portfolio_value (heap w r)]" "w\<lparr>heap := (heap w)(nxt w := heap w r), nxt := Suc (nxt w)\<rparr>"]
  by (simp add: simulate_with_history_st_def simulate_with_history_def alloc_def copy_def Let_def)

lemma seeds_st_frame:
  "heap (snd (seeds_st L count w)) = heap w \<and> nxt (snd (seeds_st L count w)) = nxt w"
  by (simp add: seeds_st_def split: prod.splits)

subsection \<open>Seeds\<close>

lemma seed_bound_value: "seed_bound = 2147483648"
  by (simp add: seed_bound_def)

lemma seeds_from_length: "length (fst (seeds_from L n g)) = n"
proof (induction n arbitrary: g)
  case 0
  show ?case by simp
next
  case (Suc n)
  obtain s g1 where r: "randint L 0 seed_bound g = (s, g1)" by (cases "randint L 0 seed_bound g")
  obtain rest g2 where t: "seeds_from L n g1 = (rest, g2)" by (cases "seeds_from L n g1")
  from Suc [of g1] r t show ?case by simp
qed

lemma seeds_from_range:
  assumes "randint_in_range L"
  shows "\<forall>s \<in> set (fst (seeds_from L n g)). 0 \<le> s \<and> s \<le> seed_bound"
proof (induction n arbitrary: g)
  case 0
  show ?case by simp
next
  case (Suc n)
  obtain s g1 where r: "randint L 0 seed_bound g = (s, g1)" by (cases "randint L 0 seed_bound g")
  have "0 \<le> seed_bound" by (simp add: seed_bound_value)
  with assms have "0 \<le> fst (randint L 0 seed_bound g) \<and> fst (randint L 0 seed_bound g) \<le> seed_bound"
    unfolding randint_in_range_def by blast
  with r have "0 \<le> s \<and> s \<le> seed_bound" by simp
  moreover obtain rest g2 where t: "seeds_from L n g1 = (rest, g2)" by (cases "seeds_from L n g1")
  ultimately show ?case using Suc [of g1] r by simp
qed

subsection \<open>Aggregation\<close>

lemma getitem_in_range: "0 \<le> i \<Longrightarrow> i < int (length xs) \<Longrightarrow> getitem xs i = Inr (xs ! nat i)"
  by (simp add: getitem_def)

lemma comprehension_getitem:
  "\<forall>i \<in> set js. 0 \<le> f i \<and> f i < int (length xs) \<Longrightarrow>
   comprehension (\<lambda>i. getitem xs (f i)) js = Inr (map (\<lambda>i. xs ! nat (f i)) js)"
  by (induction js) (simp_all add: getitem_in_range)

lemma decile_index_bounds:
  assumes "0 < L" and "i \<le> 10"
  shows "(L - 1) * i div 10 < (L::nat)"
proof -
  from assms(2) have "(L - 1) * i \<le> (L - 1) * 10" by simp
  then have "(L - 1) * i div 10 \<le> (L - 1) * 10 div 10" by (rule div_le_mono)
  with assms(1) show ?thesis by simp
qed

lemma decile_index_int:
  assumes "0 < L"
  shows "(int L - 1) * int i div 10 = int ((L - 1) * i div 10)"
proof -
  from assms have e: "int (L - 1) = int L - 1" by simp
  have "int ((L - 1) * i div 10) = int (L - 1) * int i div 10" by (simp add: zdiv_int)
  then show ?thesis by (simp only: e)
qed

lemma decile_index_floor:
  assumes "0 < L"
  shows "nat \<lfloor>(real L - 1) * real i / 10\<rfloor> = (L - 1) * i div 10"
proof -
  from assms have "(real L - 1) * real i / 10 = real ((L - 1) * i) / real 10"
    by (simp add: of_nat_diff)
  then show ?thesis by (simp only: floor_divide_of_nat_eq nat_int)
qed

lemma range_11: "[0..<11] = [0, 1, 2, 3, 4, 5, 6, 7, 8, 9, 10 :: nat]"
  by code_simp

lemma sorted_first_Min:
  assumes "sorted vs" and "vs \<noteq> []"
  shows "vs ! 0 = Min (set vs)"
proof -
  from assms(2) obtain x xs where vs: "vs = x # xs" by (cases vs) auto
  with assms(1) have "\<forall>y \<in> set vs. x \<le> y" by auto
  then have "Min (set vs) = x" using vs by (intro Min_eqI) auto
  with vs show ?thesis by simp
qed

lemma py_int_nonneg: "0 \<le> x \<Longrightarrow> py_int x = \<lfloor>x\<rfloor>"
  by (simp add: py_int_def)

lemma sorted_map_real_upt: "sorted (map real [m..<n])"
  by (simp add: sorted_map)

lemma simulated_values_sorted: "sorted (simulated_values simulated_results)"
  by (simp add: simulated_values_def)

subsection \<open>Rounding to float64\<close>

lemma round_half_even_bound: "\<bar>of_int (round_half_even y) - y\<bar> \<le> 1 / 2"
proof -
  have "of_int \<lfloor>y\<rfloor> \<le> y" and "y < of_int \<lfloor>y\<rfloor> + 1" by linarith+
  then show ?thesis by (auto simp: round_half_even_def)
qed

lemma round_half_even_of_int: "round_half_even (of_int n) = n"
  by (simp add: round_half_even_def)

lemma exponent_bounds:
  assumes "0 < x"
  shows "2 powr of_int \<lfloor>log 2 x\<rfloor> \<le> x" and "x < 2 powr (of_int \<lfloor>log 2 x\<rfloor> + 1)"
proof -
  have lo: "of_int \<lfloor>log 2 x\<rfloor> \<le> log 2 x" by simp
  from assms have "of_int \<lfloor>log 2 x\<rfloor> \<le> log 2 x \<longleftrightarrow> 2 powr of_int \<lfloor>log 2 x\<rfloor> \<le> x"
    by (intro le_log_iff) simp_all
  with lo show "2 powr of_int \<lfloor>log 2 x\<rfloor> \<le> x" by blast
  have hi: "log 2 x < of_int \<lfloor>log 2 x\<rfloor> + 1" by linarith
  from assms have "log 2 x < of_int \<lfloor>log 2 x\<rfloor> + 1 \<longleftrightarrow> x < 2 powr (of_int \<lfloor>log 2 x\<rfloor> + 1)"
    by (intro log_less_iff) simp_all
  with hi show "x < 2 powr (of_int \<lfloor>log 2 x\<rfloor> + 1)" by blast
qed

lemma exponent_unique:
  assumes "0 < x" and "2 powr of_int e \<le> x" and "x < 2 powr (of_int e + 1)"
  shows "\<lfloor>log 2 x\<rfloor> = e"
proof (rule floor_unique)
  from assms(1,2) show "of_int e \<le> log 2 x" by (simp add: le_log_iff)
  from assms(1,3) show "log 2 x < of_int e + 1" by (simp add: log_less_iff)
qed

lemma float64_eval:
  assumes "0 < x" and "2 powr of_int e \<le> x" and "x < 2 powr (of_int e + 1)"
  shows "float64 x = of_int (round_half_even (x / 2 powr (of_int e - 52))) * 2 powr (of_int e - 52)"
  using assms exponent_unique [OF assms] by (simp add: float64_def)

lemma float64_error:
  assumes "0 < x"
  shows "\<bar>float64 x - x\<bar> \<le> x / 2 ^ 53"
proof -
  let ?e = "of_int \<lfloor>log 2 x\<rfloor> :: real"
  let ?q = "2 powr (?e - 52)"
  let ?n = "of_int (round_half_even (x / ?q)) :: real"
  have q: "0 < ?q" by simp
  have "?q = 2 powr ?e / 2 ^ 52" by (simp add: powr_diff)
  with exponent_bounds(1) [OF assms] have qle: "?q \<le> x / 2 ^ 52" by (simp add: divide_right_mono)
  have "\<bar>?n - x / ?q\<bar> \<le> 1 / 2" by (rule round_half_even_bound)
  then have "\<bar>?n - x / ?q\<bar> * ?q \<le> 1 / 2 * ?q" using q by (intro mult_right_mono) simp_all
  moreover have "\<bar>?n - x / ?q\<bar> * ?q = \<bar>?n * ?q - x\<bar>"
  proof -
    have "\<bar>?n - x / ?q\<bar> * ?q = \<bar>(?n - x / ?q) * ?q\<bar>" using q by (simp add: abs_mult)
    also have "(?n - x / ?q) * ?q = ?n * ?q - x" using q by (simp add: left_diff_distrib)
    finally show ?thesis .
  qed
  ultimately have "\<bar>?n * ?q - x\<bar> \<le> ?q / 2" by simp
  also from qle have "?q / 2 \<le> x / 2 ^ 53" by simp
  finally show ?thesis using assms by (simp add: float64_def)
qed

lemma float64_005: "float64 (5 / 100) = 7205759403792794 / 2 ^ 57"
  using float64_eval [of "5 / 100" "- 5"]
  by (simp add: powr_neg_numeral round_half_even_def)

lemma float64_06: "float64 (6 / 10) = 5404319552844595 / 2 ^ 53"
  using float64_eval [of "6 / 10" "- 1"]
  by (simp add: powr_neg_numeral round_half_even_def)

lemma float64_058: "float64 (58 / 100) = 5224175567749775 / 2 ^ 53"
  using float64_eval [of "58 / 100" "- 1"]
  by (simp add: powr_neg_numeral round_half_even_def)

lemma float64_5_06: "float64 (5 * (5404319552844595 / 2 ^ 53)) = 3"
  using float64_eval [of "5 * (5404319552844595 / 2 ^ 53)" 1]
  by (simp add: powr_neg_numeral round_half_even_def)

lemma float64_50_058: "float64 (50 * (5224175567749775 / 2 ^ 53)) = 8162774324609023 / 2 ^ 48"
  using float64_eval [of "50 * (5224175567749775 / 2 ^ 53)" 4]
  by (simp add: powr_neg_numeral round_half_even_def)

lemma float64_10000_005: "float64 (10000 * (7205759403792794 / 2 ^ 57)) = 500"
  using float64_eval [of "10000 * (7205759403792794 / 2 ^ 57)" 8]
  by (simp add: powr_neg_numeral round_half_even_def)

lemma float64_exact:
  assumes "0 < x" and "x / 2 powr (of_int \<lfloor>log 2 x\<rfloor> - 52) = of_int n"
  shows "float64 x = x"
proof -
  have "of_int n * 2 powr (of_int \<lfloor>log 2 x\<rfloor> - 52) = x"
    unfolding assms(2) [symmetric] by simp
  with assms show ?thesis by (simp add: float64_def round_half_even_of_int)
qed

lemma float64_of_nat:
  assumes "0 < L" and "L \<le> 2 ^ 53"
  shows "float64 (real L) = real L"
proof -
  let ?x = "real L"
  let ?e = "\<lfloor>log 2 ?x\<rfloor>"
  from assms(1) have x: "0 < ?x" and x1: "1 \<le> ?x" by simp_all
  from x1 have e0: "0 \<le> ?e" by simp
  from assms(2) have "?x \<le> real (2 ^ 53)" by (simp only: of_nat_le_iff)
  then have xle: "?x \<le> 2 powr 53" by simp
  with exponent_bounds(1) [OF x] have p: "(2::real) powr of_int ?e \<le> 2 powr 53" by linarith
  have two: "(1::real) < 2" by simp
  from powr_le_cancel_iff [OF two, of "of_int ?e" 53] p have "of_int ?e \<le> (53::real)" by blast
  then have e53: "?e \<le> 53" by linarith
  show ?thesis
  proof (cases "?e \<le> 52")
    case True
    define k where "k = nat (52 - ?e)"
    with True have "of_int ?e - 52 = - real k" by simp
    then have "(2::real) powr (of_int ?e - 52) = 1 / 2 ^ k"
      by (simp add: powr_minus powr_realpow inverse_eq_divide)
    then have "?x / 2 powr (of_int ?e - 52) = of_int (int (L * 2 ^ k))" by simp
    with x show ?thesis by (rule float64_exact)
  next
    case False
    with e53 have e: "?e = 53" by linarith
    with exponent_bounds(1) [OF x] have "(2::real) powr 53 \<le> ?x" by simp
    with xle have "?x = 2 powr 53" by linarith
    with e have "?x / 2 powr (of_int ?e - 52) = of_int (2 ^ 52)" by simp
    with x show ?thesis by (rule float64_exact)
  qed
qed

lemma float64_below_one:
  assumes "float64 a = a" and "0 < a" and "a < 1"
  shows "a \<le> 1 - 1 / 2 ^ 53"
proof -
  let ?e = "\<lfloor>log 2 a\<rfloor>"
  have two: "(1::real) < 2" by simp
  from assms(2,3) have "?e < 0" by (simp add: floor_less_iff)
  then have e: "?e \<le> - 1" by linarith
  show ?thesis
  proof (cases "?e = - 1")
    case True
    define n where "n = round_half_even (a / 2 powr (of_int ?e - 52))"
    from assms(1,2) True have a: "a = of_int n / 2 ^ 53"
      by (simp add: float64_def n_def powr_neg_numeral)
    with assms(3) have "of_int n < (2 ^ 53 :: real)" by simp
    then have "n < 2 ^ 53" by (metis of_int_less_iff of_int_numeral of_int_power)
    then have "n \<le> 2 ^ 53 - 1" by simp
    then have "(of_int n :: real) \<le> of_int (2 ^ 53 - 1)" by (simp only: of_int_le_iff)
    then have "(of_int n :: real) \<le> 2 ^ 53 - 1" by simp
    then have "of_int n / 2 ^ 53 \<le> ((2 ^ 53 - 1) / 2 ^ 53 :: real)" by (simp add: divide_right_mono)
    with a show ?thesis by (simp add: diff_divide_distrib)
  next
    case False
    with e have "of_int ?e + 1 \<le> (- 1 :: real)" by linarith
    then have "(2::real) powr (of_int ?e + 1) \<le> 2 powr (- 1 :: real)"
      by (simp only: powr_le_cancel_iff [OF two])
    with exponent_bounds(2) [OF assms(2)] have "a < 1 / 2" by (simp add: powr_neg_numeral)
    then show ?thesis by simp
  qed
qed

lemma rounded_product_below:
  fixes u a f :: real
  assumes "0 < u" and "0 < L" and "0 < a" and "a \<le> 1 - u" and "\<bar>f - L * a\<bar> \<le> L * a * u"
  shows "0 \<le> f" and "f < L"
proof -
  from assms(1,3,4) have u1: "u < 1" by linarith
  from assms(2,3) have La: "0 < L * a" by simp
  from assms(5) have "L * a - L * a * u \<le> f" by linarith
  moreover have "L * a - L * a * u = L * a * (1 - u)" by (simp add: right_diff_distrib)
  moreover from La u1 have "0 \<le> L * a * (1 - u)" by simp
  ultimately show "0 \<le> f" by linarith
  from assms(5) have "f \<le> L * a + L * a * u" by linarith
  also have "L * a + L * a * u = L * (a * (1 + u))" by (simp add: distrib_left)
  also have "a * (1 + u) \<le> (1 - u) * (1 + u)" using assms(1,4) by (intro mult_right_mono) simp_all
  then have "L * (a * (1 + u)) \<le> L * ((1 - u) * (1 + u))" using assms(2) by (intro mult_left_mono) simp_all
  also have "(1 - u) * (1 + u) = 1 - u * u" by (simp add: algebra_simps)
  also have "L * (1 - u * u) < L * 1" using assms(1,2) by (intro mult_strict_left_mono) simp_all
  finally show "f < L" by simp
qed

lemma float64_0: "float64 0 = 0"
  by (simp add: float64_def)

lemma value_at_risk_eval:
  assumes "float64 (real (length vs)) = l" and "float64 (l * a) = f" and "py_int f = i"
  shows "value_at_risk vs a = getitem vs i"
  using assms by (simp add: value_at_risk_def)

lemma float64_numerals: "float64 5 = 5" "float64 50 = 50" "float64 10000 = 10000" "float64 4 = 4"
  using float64_of_nat [of 5] float64_of_nat [of 50] float64_of_nat [of 10000] float64_of_nat [of 4]
  by simp_all

lemma float64_product_range:
  assumes "0 < L" and "is_float64 a" and "0 \<le> a" and "a < 1"
  shows "0 \<le> float64 (real L * a)" and "float64 (real L * a) < real L"
    and "\<bar>float64 (real L * a) - real L * a\<bar> \<le> real L * a / 2 ^ 53"
proof -
  have "0 \<le> float64 (real L * a) \<and> float64 (real L * a) < real L \<and>
        \<bar>float64 (real L * a) - real L * a\<bar> \<le> real L * a / 2 ^ 53"
  proof (cases "a = 0")
    case True
    with assms(1) show ?thesis by (simp add: float64_0)
  next
    case False
    with assms(3) have a: "0 < a" by simp
    from assms(2) have "float64 a = a" by (simp add: is_float64_def)
    from float64_below_one [OF this a assms(4)] have a1: "a \<le> 1 - 1 / 2 ^ 53" .
    from assms(1) a have x: "0 < real L * a" by simp
    from float64_error [OF x]
    have e: "\<bar>float64 (real L * a) - real L * a\<bar> \<le> real L * a * (1 / 2 ^ 53)" by simp
    have u: "(0::real) < 1 / 2 ^ 53" by simp
    from assms(1) have L: "0 < real L" by simp
    from rounded_product_below [OF u L a a1 e] e show ?thesis by simp
  qed
  then show "0 \<le> float64 (real L * a)" and "float64 (real L * a) < real L"
    and "\<bar>float64 (real L * a) - real L * a\<bar> \<le> real L * a / 2 ^ 53" by simp_all
qed

lemma float64_half: "float64 (1 / 2) = 1 / 2"
  using float64_eval [of "1 / 2" "- 1"]
  by (simp add: powr_neg_numeral round_half_even_def)

lemma float64_2: "float64 2 = 2"
  using float64_of_nat [of 2] by simp

lemma is_float64_half: "is_float64 (1 / 2)"
  by (simp add: is_float64_def float64_half powr_neg_numeral)

lemma is_float64_005: "is_float64 (float64 (5 / 100))"
proof -
  have "float64 (7205759403792794 / 2 ^ 57) = 7205759403792794 / 2 ^ 57"
    using float64_eval [of "7205759403792794 / 2 ^ 57" "- 5"]
    by (simp add: powr_neg_numeral round_half_even_def)
  then show ?thesis
    unfolding float64_005 by (simp add: is_float64_def powr_neg_numeral)
qed

subsection \<open>Evaluating with the concrete generator\<close>

lemma demo_seed_gen [simp]: "seed_gen demo_lib s = nat \<bar>s\<bar>"
  by (simp add: demo_lib_def)

lemma demo_std_normal [simp]: "std_normal demo_lib g = (real (g mod 5) - 2, Suc g)"
  by (simp add: demo_lib_def)

lemma demo_randint [simp]: "randint demo_lib a b g = (a + int g mod (b - a + 1), 7 * g + 3)"
  by (simp add: demo_lib_def)


lemmas demo_eval = simulate_def simulate_with_history_def copy_def simstep_def daily_return_def
  normalvariate_def demo_profiles_def dict_def portfolio_value_def

lemma demo_randint_in_range: "randint_in_range demo_lib"
proof -
  have "a + int g mod (b - a + 1) \<le> b" if "a \<le> b" for a b :: int and g :: nat
  proof -
    from that have "int g mod (b - a + 1) < b - a + 1" by (intro pos_mod_bound) simp
    then show ?thesis by simp
  qed
  moreover have "a \<le> a + int g mod (b - a + 1)" if "a \<le> b" for a b :: int and g :: nat
  proof -
    from that have "0 \<le> int g mod (b - a + 1)" by (intro pos_mod_sign) simp
    then show ?thesis by simp
  qed
  ultimately show ?thesis by (simp add: randint_in_range_def)
qed

lemma demo_simulate_value:
  "simulate demo_lib 7 (heap demo_world 0) demo_profiles 2
     = Inr [(''AAA'', 2121 / 20), (''BBB'', 4949 / 100)]"
  by (simp add: demo_world_def demo_eval numeral_2_eq_2)

subsection \<open>The claims\<close>

text \<open>C7: a run of zero days returns a dict equal to the portfolio it was given, for every
  seed, portfolio and profile map, so the portfolio value is unchanged as well. On the
  store, the returned reference is a new object whose items are those of the argument.\<close>

theorem simulate_zero_days:
  "simulate L seed pf params 0 = Inr pf \<and>
   map_sum id portfolio_value (simulate L seed pf params 0) = Inr (portfolio_value pf) \<and>
   fst (simulate_st L seed r params 0 w) = Inr (nxt w) \<and>
   outcome (simulate_st L seed r params 0 w) = Inr (heap w r)"
  by (simp add: simulate_def simulate_st_def alloc_def outcome_def copy_def)

text \<open>C8: when the portfolio holds a symbol with no entry in the profile map and the day
  count is at least 1, \<open>simulate\<close> raises \<open>KeyError\<close> for a held symbol without a profile
  (it neither skips the security nor returns a partial dict); with a day count of 0 or
  less, or when every held symbol has a profile, it returns a portfolio.\<close>

theorem simulate_missing_profile:
  "(s \<in> fst ` set pf \<and> params s = None \<and> 1 \<le> days \<longrightarrow>
      (\<exists>k \<in> fst ` set pf. params k = None \<and> simulate L seed pf params days = Inl (KeyError k))) \<and>
   (days \<le> 0 \<or> (\<forall>k \<in> fst ` set pf. params k \<noteq> None) \<longrightarrow>
      (\<exists>pf'. simulate L seed pf params days = Inr pf'))"
proof (intro conjI impI)
  assume a: "s \<in> fst ` set pf \<and> params s = None \<and> 1 \<le> days"
  then obtain n where n: "nat days = Suc n" by (cases "nat days") auto
  from a have "\<exists>e. sim_days L (Suc n) pf params (seed_gen L seed) = Inl e"
    by (intro sim_days_missing [where params = params and s = s]) auto
  then obtain e where e: "sim_days L (Suc n) pf params (seed_gen L seed) = Inl e" ..
  from sim_days_error [OF e] e n
  show "\<exists>k \<in> fst ` set pf. params k = None \<and> simulate L seed pf params days = Inl (KeyError k)"
    by (auto simp: simulate_def copy_def)
next
  assume "days \<le> 0 \<or> (\<forall>k \<in> fst ` set pf. params k \<noteq> None)"
  then show "\<exists>pf'. simulate L seed pf params days = Inr pf'"
  proof
    assume "days \<le> 0"
    then show ?thesis by (simp add: simulate_def)
  next
    assume "\<forall>k \<in> fst ` set pf. params k \<noteq> None"
    then show ?thesis
      unfolding simulate_def copy_def by (rule sim_days_ok)
  qed
qed

theorem simulate_missing_profile_witness:
  "simulate demo_lib 7 [(''AAA'', 100), (''ZZZ'', 5)] demo_profiles 1 = Inl (KeyError ''ZZZ'') \<and>
   simulate demo_lib 7 [(''AAA'', 100), (''ZZZ'', 5)] demo_profiles 0 = Inr [(''AAA'', 100), (''ZZZ'', 5)] \<and>
   simulate demo_lib 7 [(''AAA'', 100), (''BBB'', 50)] demo_profiles 2
     = Inr [(''AAA'', 2121 / 20), (''BBB'', 4949 / 100)]"
  using simulate_missing_profile [of "''ZZZ''" "[(''AAA'', 100), (''ZZZ'', 5)]" demo_profiles 1 demo_lib 7]
    simulate_missing_profile [of "''ZZZ''" "[(''AAA'', 100), (''ZZZ'', 5)]" demo_profiles 0 demo_lib 7]
    simulate_missing_profile [of "''ZZZ''" "[(''AAA'', 100), (''BBB'', 50)]" demo_profiles 2 demo_lib 7]
  by (simp add: demo_eval numeral_2_eq_2)

text \<open>C10: for a portfolio (a dict: no symbol twice) whose symbols all have a profile,
  \<open>simstep\<close> returns a dict over exactly the same symbols, each exactly once (and in the
  same order), whatever the generator state; and \<open>simulate\<close> returns a portfolio over
  the same symbols for every day count.\<close>

theorem simstep_preserves_keys:
  assumes "\<forall>s \<in> fst ` set pf. params s \<noteq> None" and "distinct (map fst pf)"
  shows "(\<exists>pf' g'. simstep L pf params g = Inr (pf', g') \<and>
            map fst pf' = map fst pf \<and> set (map fst pf') = set (map fst pf) \<and> distinct (map fst pf')) \<and>
         (\<exists>pf''. simulate L seed pf params days = Inr pf'' \<and>
            map fst pf'' = map fst pf \<and> set (map fst pf'') = set (map fst pf) \<and> distinct (map fst pf''))"
proof
  from simstep_ok [where params = params, OF assms(1), of L g]
  obtain pf' g' where step: "simstep L pf params g = Inr (pf', g')" by blast
  from simstep_Inr(3) [OF step assms(2)] have "map fst pf' = map fst pf" .
  with step assms(2) simstep_Inr(1) [OF step]
  show "\<exists>pf' g'. simstep L pf params g = Inr (pf', g') \<and>
            map fst pf' = map fst pf \<and> set (map fst pf') = set (map fst pf) \<and> distinct (map fst pf')"
    by simp
next
  from sim_days_ok [where params = params, OF assms(1), of L "nat days" "seed_gen L seed"]
  obtain pf'' where run: "sim_days L (nat days) pf params (seed_gen L seed) = Inr pf''" ..
  from sim_days_Inr [OF run] assms(2) have "map fst pf'' = map fst pf" by simp
  moreover from sim_days_Inr [OF run] have "fst ` set pf'' = fst ` set pf" by simp
  ultimately
  show "\<exists>pf''. simulate L seed pf params days = Inr pf'' \<and>
            map fst pf'' = map fst pf \<and> set (map fst pf'') = set (map fst pf) \<and> distinct (map fst pf'')"
    using run assms(2) by (simp add: simulate_def copy_def)
qed

theorem simstep_preserves_keys_witness:
  "simstep demo_lib [(''AAA'', 100), (''BBB'', 50)] demo_profiles 7
     = Inr ([(''AAA'', 101), (''BBB'', 101 / 2)], 9) \<and>
   simulate demo_lib 7 [(''AAA'', 100), (''BBB'', 50)] demo_profiles 2
     = Inr [(''AAA'', 2121 / 20), (''BBB'', 4949 / 100)]"
  using simstep_preserves_keys [of "[(''AAA'', 100), (''BBB'', 50)]" demo_profiles demo_lib 7 7 2]
  by (simp add: demo_eval numeral_2_eq_2)

text \<open>C4: for every seed, every portfolio whose symbols all have a profile and every day
  count \<open>N \<ge> 0\<close>, \<open>simulate_with_history\<close> returns a list of length \<open>N + 1\<close> whose first
  element is the value of the portfolio before the simulation and whose last element is
  the value of the portfolio that \<open>simulate\<close> returns for the same arguments.\<close>

theorem history_final_consistency:
  assumes "\<forall>s \<in> fst ` set pf. params s \<noteq> None" and "0 \<le> N"
  shows "\<exists>vs pf'. simulate_with_history L seed pf params N = Inr vs \<and>
           simulate L seed pf params N = Inr pf' \<and>
           int (length vs) = N + 1 \<and>
           vs ! 0 = portfolio_value pf \<and>
           last vs = portfolio_value pf'"
proof -
  let ?g = "seed_gen L seed"
  from sim_days_ok [where params = params, OF assms(1), of L "nat N" ?g]
  obtain pf' where run: "sim_days L (nat N) pf params ?g = Inr pf'" ..
  with hist_days_sim_days [of L "nat N" pf params ?g "[portfolio_value pf]"]
  obtain ws where h: "hist_days L (nat N) pf params ?g [portfolio_value pf] = Inr ([portfolio_value pf] @ ws)"
    and l: "length ws = nat N" and la: "ws \<noteq> [] \<longrightarrow> last ws = portfolio_value pf'"
    by auto
  have "ws = [] \<Longrightarrow> pf' = pf" using l run by auto
  with la have "last (portfolio_value pf # ws) = portfolio_value pf'" by (cases "ws = []") auto
  with h l run assms(2) show ?thesis
    by (simp add: simulate_with_history_def simulate_def copy_def)
qed

theorem history_final_consistency_witness:
  "simulate_with_history demo_lib 7 [(''AAA'', 100), (''BBB'', 50)] demo_profiles 2
     = Inr [150, 303 / 2, 7777 / 50] \<and>
   map_sum id portfolio_value (simulate demo_lib 7 [(''AAA'', 100), (''BBB'', 50)] demo_profiles 2)
     = Inr (7777 / 50) \<and>
   portfolio_value [(''AAA'', 100), (''BBB'', 50)] = 150"
  using history_final_consistency [of "[(''AAA'', 100), (''BBB'', 50)]" demo_profiles 2 demo_lib 7]
  by (simp add: demo_eval numeral_2_eq_2)

text \<open>C5: in one simulated day every security \<open>s\<close> of the portfolio keeps its place and its
  quantity is multiplied by \<open>(x + 100) / 100\<close>, where \<open>x\<close> is a draw of
  \<open>normalvariate(mean[s], stddev[s])\<close> from the trial's generator. Consequently, for
  every generator and every seed, the portfolio \<open>{"AAA": 100.0}\<close> with profile
  \<open>(1.0, 0.0)\<close> is worth exactly 101 after one day, and with profile \<open>(0.0, 0.0)\<close>
  exactly 100 after five days.\<close>

theorem simstep_daily_factor:
  "(distinct (map fst pf) \<and> simstep L pf params g = Inr (pf', g') \<longrightarrow>
      list_all2 (\<lambda>(s, v) (s', v'). s' = s \<and>
        (\<exists>mean stddev h. params s = Some (mean, stddev) \<and>
           v' = (fst (normalvariate L mean stddev h) + 100) / 100 * v)) pf pf') \<and>
   simulate L seed [(''AAA'', 100)] [''AAA'' \<mapsto> (1, 0)] 1 = Inr [(''AAA'', 101)] \<and>
   map_sum id portfolio_value (simulate L seed [(''AAA'', 100)] [''AAA'' \<mapsto> (1, 0)] 1) = Inr 101 \<and>
   simulate L seed [(''AAA'', 100)] [''AAA'' \<mapsto> (0, 0)] 5 = Inr [(''AAA'', 100)] \<and>
   map_sum id portfolio_value (simulate L seed [(''AAA'', 100)] [''AAA'' \<mapsto> (0, 0)] 5) = Inr 100"
proof (intro conjI impI)
  assume a: "distinct (map fst pf) \<and> simstep L pf params g = Inr (pf', g')"
  then obtain out where out: "simstep_items L params pf g = Inr (out, g')" and pf': "pf' = dict out"
    by (auto simp: simstep_def split: sum.splits prod.splits)
  from simstep_items_keys [OF out] a have "dict out = out" by (simp add: dict_of_distinct)
  with simstep_items_factors [OF out] pf'
  show "list_all2 (\<lambda>(s, v) (s', v'). s' = s \<and>
        (\<exists>mean stddev h. params s = Some (mean, stddev) \<and>
           v' = (fst (normalvariate L mean stddev h) + 100) / 100 * v)) pf pf'" by simp
next
  have step1: "simstep L [(''AAA'', 100)] [''AAA'' \<mapsto> (1, 0)] g = Inr ([(''AAA'', 101)], snd (std_normal L g))" for g
    by (simp add: simstep_def daily_return_def normalvariate_def dict_def split: prod.splits)
  show one: "simulate L seed [(''AAA'', 100)] [''AAA'' \<mapsto> (1, 0)] 1 = Inr [(''AAA'', 101)]"
    by (simp add: simulate_def copy_def step1)
  show "map_sum id portfolio_value (simulate L seed [(''AAA'', 100)] [''AAA'' \<mapsto> (1, 0)] 1) = Inr 101"
    by (simp add: one portfolio_value_def)
  have step0: "simstep L [(''AAA'', 100)] [''AAA'' \<mapsto> (0, 0)] g = Inr ([(''AAA'', 100)], snd (std_normal L g))" for g
    by (simp add: simstep_def daily_return_def normalvariate_def dict_def split: prod.splits)
  have days0: "sim_days L n [(''AAA'', 100)] [''AAA'' \<mapsto> (0, 0)] g = Inr [(''AAA'', 100)]" for n g
    by (induction n arbitrary: g) (simp_all add: step0)
  show five: "simulate L seed [(''AAA'', 100)] [''AAA'' \<mapsto> (0, 0)] 5 = Inr [(''AAA'', 100)]"
    by (simp add: simulate_def copy_def days0)
  show "map_sum id portfolio_value (simulate L seed [(''AAA'', 100)] [''AAA'' \<mapsto> (0, 0)] 5) = Inr 100"
    by (simp add: five portfolio_value_def)
qed

theorem simstep_daily_factor_witness:
  "simstep demo_lib [(''AAA'', 100), (''BBB'', 50)] demo_profiles 8
     = Inr ([(''AAA'', 103), (''BBB'', 51)], 10) \<and>
   list_all2 (\<lambda>(s, v) (s', v'). s' = s \<and>
        (\<exists>mean stddev h. demo_profiles s = Some (mean, stddev) \<and>
           v' = (fst (normalvariate demo_lib mean stddev h) + 100) / 100 * v))
     [(''AAA'', 100), (''BBB'', 50)] [(''AAA'', 103), (''BBB'', 51)]"
proof -
  have e: "simstep demo_lib [(''AAA'', 100), (''BBB'', 50)] demo_profiles 8
     = Inr ([(''AAA'', 103), (''BBB'', 51)], 10)"
    by (simp add: demo_eval)
  with simstep_daily_factor [of "[(''AAA'', 100), (''BBB'', 50)]" demo_lib demo_profiles 8
      "[(''AAA'', 103), (''BBB'', 51)]" 10]
  show ?thesis by simp
qed

text \<open>C9: \<open>simulate\<close> and \<open>simulate_with_history\<close> never change the caller's portfolio: for
  every seed, profile map and day count, the dict at the caller's address (an allocated
  object of the store) has the same items after the call as before it, whether the call
  returns or raises; the trial steps forward objects of its own.\<close>

theorem simulate_keeps_argument:
  assumes "pf < nxt w"
  shows "heap (snd (simulate_st L seed pf params days w)) pf = heap w pf \<and>
         heap (snd (simulate_with_history_st L seed pf params days w)) pf = heap w pf"
  using assms simulate_st_sound [of L seed pf params days w]
    simulate_with_history_st_sound [of L seed pf params days w]
  by simp

theorem simulate_keeps_argument_witness:
  "(0::nat) < nxt demo_world \<and>
   outcome (simulate_st demo_lib 7 0 demo_profiles 2 demo_world)
     = Inr [(''AAA'', 2121 / 20), (''BBB'', 4949 / 100)] \<and>
   heap (snd (simulate_st demo_lib 7 0 demo_profiles 2 demo_world)) 0 = [(''AAA'', 100), (''BBB'', 50)] \<and>
   heap (snd (simulate_with_history_st demo_lib 7 0 demo_profiles 2 demo_world)) 0
     = [(''AAA'', 100), (''BBB'', 50)]"
proof -
  have a: "(0::nat) < nxt demo_world" by (simp add: demo_world_def)
  have h: "heap demo_world 0 = [(''AAA'', 100), (''BBB'', 50)]" by (simp add: demo_world_def)
  from simulate_keeps_argument [OF a, of demo_lib 7 demo_profiles 2] a h
    simulate_st_sound [of demo_lib 7 0 demo_profiles 2 demo_world] demo_simulate_value
  show ?thesis by simp
qed

text \<open>C6: \<open>simulate\<close> is deterministic. Two calls with the same seed, profile map and day
  count on portfolios with the same items (in the same iteration order) give the same
  outcome in any two stores, that is, whatever ran before and in whatever order; the
  outcome is a function of the four arguments alone, and the call leaves the
  module-level generator as it was (the trial draws from a generator of its own, seeded
  from its seed).\<close>

theorem simulate_deterministic:
  "(heap w2 pf2 = heap w1 pf1 \<longrightarrow>
      outcome (simulate_st L seed pf2 params days w2) = outcome (simulate_st L seed pf1 params days w1)) \<and>
   outcome (simulate_st L seed pf1 params days w1) = simulate L seed (heap w1 pf1) params days \<and>
   global_rng (snd (simulate_st L seed pf1 params days w1)) = global_rng w1"
  by (simp add: simulate_st_sound)

theorem simulate_deterministic_witness:
  "heap (snd (simulate_st demo_lib 99 0 demo_profiles 3 (snd (seeds_st demo_lib 2 demo_world)))) 0
     = heap demo_world 0 \<and>
   global_rng (snd (seeds_st demo_lib 2 demo_world)) \<noteq> global_rng demo_world \<and>
   outcome (simulate_st demo_lib 7 0 demo_profiles 2
      (snd (simulate_st demo_lib 99 0 demo_profiles 3 (snd (seeds_st demo_lib 2 demo_world)))))
     = outcome (simulate_st demo_lib 7 0 demo_profiles 2 demo_world) \<and>
   outcome (simulate_st demo_lib 7 0 demo_profiles 2 demo_world)
     = Inr [(''AAA'', 2121 / 20), (''BBB'', 4949 / 100)]"
proof -
  let ?w2 = "snd (simulate_st demo_lib 99 0 demo_profiles 3 (snd (seeds_st demo_lib 2 demo_world)))"
  have f: "heap ?w2 0 = heap demo_world 0"
    using simulate_st_sound [of demo_lib 99 0 demo_profiles 3 "snd (seeds_st demo_lib 2 demo_world)"]
    by (simp add: seeds_st_frame demo_world_def)
  have g: "global_rng (snd (seeds_st demo_lib 2 demo_world)) \<noteq> global_rng demo_world"
    by (simp add: seeds_st_def seeds_def demo_world_def numeral_2_eq_2 split: prod.splits)
  from simulate_deterministic [of ?w2 0 demo_world 0 demo_lib 7 demo_profiles 2] f g demo_simulate_value
  show ?thesis by simp
qed

text \<open>C1: what \<open>seeds\<close> does. With a library whose \<open>randint(a, b)\<close> returns a value between
  \<open>a\<close> and \<open>b\<close>, \<open>seeds(count)\<close> returns a list of exactly \<open>count\<close> integers (none for a
  negative count), each between 0 and \<open>2^31\<close>: the bound \<^verbatim>\<open>1 << 32 - 1\<close> is \<open>1 << 31\<close>.
  So no seed above \<open>2^31\<close> is ever returned, and \<open>2^32 - 1\<close> in particular is not
  possible.\<close>

theorem seeds_range:
  assumes "randint_in_range L"
  shows "length (fst (seeds L count g)) = nat count \<and>
         (\<forall>s \<in> set (fst (seeds L count g)). 0 \<le> s \<and> s \<le> 2 ^ 31) \<and>
         2 ^ 32 - 1 \<notin> set (fst (seeds L count g))"
proof -
  from seeds_from_range [OF assms, of "nat count" g]
  have r: "\<forall>s \<in> set (fst (seeds L count g)). 0 \<le> s \<and> s \<le> 2 ^ 31"
    by (simp add: seeds_def seed_bound_value)
  then have "2 ^ 32 - 1 \<notin> set (fst (seeds L count g))" by fastforce
  with r show ?thesis by (simp add: seeds_def seeds_from_length)
qed

theorem seeds_range_witness:
  "randint_in_range demo_lib \<and> fst (seeds demo_lib 2 42) = [42, 297] \<and>
   (2 ^ 32 - 1 :: int) \<notin> set (fst (seeds demo_lib 2 42))"
  using seeds_range [OF demo_randint_in_range, of 2 42] demo_randint_in_range
  by (simp add: seeds_def seed_bound_value numeral_2_eq_2)

text \<open>C2, as the code has it: for every list of (outcome, seed) pairs of length
  \<open>L \<ge> 1\<close>, decile sampling selects exactly 11 pairs, the \<open>i\<close>-th taken at index
  \<open>floor((L - 1) * i / 10)\<close> for \<open>i = 0..10\<close>, which is always within the list; equal
  indices at small \<open>L\<close> give the same pair more than once.\<close>

theorem eleven_results_floor:
  assumes "xs \<noteq> []"
  shows "eleven_results xs = Inr (map (\<lambda>i. xs ! nat \<lfloor>(real (length xs) - 1) * real i / 10\<rfloor>) [0..<11]) \<and>
         eleven_results xs = Inr (map (\<lambda>i. xs ! ((length xs - 1) * i div 10)) [0..<11]) \<and>
         (\<forall>i \<in> set [0..<11]. (length xs - 1) * i div 10 < length xs)"
proof -
  let ?L = "length xs"
  from assms have L: "0 < ?L" by simp
  have b: "\<forall>i \<in> set [0..<11]. (?L - 1) * i div 10 < ?L"
  proof
    fix i assume "i \<in> set [0..<11]"
    then have "i \<le> 10" by simp
    with L show "(?L - 1) * i div 10 < ?L" by (rule decile_index_bounds)
  qed
  have "\<forall>j \<in> set (map int [0..<11]). 0 \<le> (int ?L - 1) * j div 10 \<and> (int ?L - 1) * j div 10 < int ?L"
  proof
    fix j assume "j \<in> set (map int [0..<11])"
    then obtain i where i: "j = int i" and "i \<in> set [0..<11]" by auto
    with b have "(?L - 1) * i div 10 < ?L" by blast
    with i show "0 \<le> (int ?L - 1) * j div 10 \<and> (int ?L - 1) * j div 10 < int ?L"
      by (simp only: decile_index_int [OF L] of_nat_less_iff of_nat_0_le_iff simp_thms)
  qed
  from comprehension_getitem [of "map int [0..<11]" "\<lambda>j. (int ?L - 1) * j div 10" xs, OF this]
  have "eleven_results xs = Inr (map (\<lambda>i. xs ! ((?L - 1) * i div 10)) [0..<11])"
    by (simp only: eleven_results_def decile_index_int [OF L] map_map comp_def nat_int)
  with b show ?thesis by (simp only: decile_index_floor [OF L] simp_thms)
qed

theorem eleven_results_floor_witness:
  "eleven_results [(-3, 10), (-2, 11), (-1, 12), (0, 13), (1, 14), (2, 15), (3::real, 16::int)]
     = Inr [(-3, 10), (-3, 10), (-2, 11), (-2, 11), (-1, 12), (0, 13), (0, 13), (1, 14), (1, 14),
            (2, 15), (3, 16)]"
  using eleven_results_floor
    [of "[(-3, 10), (-2, 11), (-1, 12), (0, 13), (1, 14), (2, 15), (3::real, 16::int)]"]
  by (simp add: eleven_results_def getitem_def range_11)

text \<open>C2 as stated fails. For the sorted list of length 7 below, the second selected
  pair (\<open>i = 1\<close>) is the one at index 0, while \<open>round((7 - 1) * 1 / 10) = round(0.6) = 1\<close>
  names the pair at index 1.\<close>

theorem eleven_results_round_counterexample:
  "map_sum id (\<lambda>ys. ys ! 1)
     (eleven_results [(-3, 10), (-2, 11), (-1, 12), (0, 13), (1, 14), (2, 15), (3::real, 16::int)])
     = Inr (-3, 10) \<and>
   decile_index_spec 7 1 = 1 \<and>
   getitem [(-3, 10), (-2, 11), (-1, 12), (0, 13), (1, 14), (2, 15), (3::real, 16::int)]
     (decile_index_spec 7 1) = Inr (-2, 11)"
proof -
  have "\<lfloor>11 / 10 :: real\<rfloor> = 1" by simp
  then have r: "decile_index_spec 7 (Suc 0) = 1"
    by (simp add: decile_index_spec_def round_def)
  show ?thesis
    by (simp add: r eleven_results_def getitem_def range_11)
qed

text \<open>C3, as the code has it: for every ascending list of outcomes of length \<open>L\<close> with
  \<open>1 \<le> L \<le> 2^53\<close> and every risk fraction \<open>\<alpha>\<close>, a float64 with \<open>0 \<le> \<alpha> < 1\<close>, the reported
  value at risk is the element at index \<open>floor(fl(L * \<alpha>))\<close>, where \<open>fl(L * \<alpha>)\<close> is the
  float64 product; this index is within the list and differs from \<open>floor(L * \<alpha>)\<close> by at
  most one. With \<open>\<alpha> = 0\<close> it is the least outcome, and with \<open>L = 10000\<close> and \<open>\<alpha> = 0.05\<close>
  it is the element at index 500.\<close>

theorem value_at_risk_index:
  assumes "sorted vs" and "vs \<noteq> []" and "length vs \<le> 2 ^ 53"
    and "is_float64 \<alpha>" and "0 \<le> \<alpha>" and "\<alpha> < 1"
  shows "value_at_risk vs \<alpha> = Inr (vs ! nat \<lfloor>float64 (real (length vs) * \<alpha>)\<rfloor>) \<and>
         nat \<lfloor>float64 (real (length vs) * \<alpha>)\<rfloor> < length vs \<and>
         \<bar>\<lfloor>float64 (real (length vs) * \<alpha>)\<rfloor> - \<lfloor>real (length vs) * \<alpha>\<rfloor>\<bar> \<le> 1 \<and>
         value_at_risk vs 0 = Inr (Min (set vs)) \<and>
         (length vs = 10000 \<longrightarrow> value_at_risk vs (float64 (5 / 100)) = Inr (vs ! 500))"
proof -
  let ?L = "length vs"
  let ?f = "float64 (real ?L * \<alpha>)"
  from assms(2) have L: "0 < ?L" by simp
  from float64_of_nat [OF L assms(3)] have conv: "float64 (real ?L) = real ?L" .
  note r = float64_product_range [OF L assms(4,5,6)]
  from r(1) have lo: "0 \<le> \<lfloor>?f\<rfloor>" by simp
  from r(2) have "?f < of_int (int ?L)" by simp
  then have hi: "\<lfloor>?f\<rfloor> < int ?L" by (simp only: floor_less_iff)
  from r(1) have "py_int ?f = \<lfloor>?f\<rfloor>" by (rule py_int_nonneg)
  with conv have "value_at_risk vs \<alpha> = getitem vs \<lfloor>?f\<rfloor>" by (simp add: value_at_risk_def)
  with lo hi have a: "value_at_risk vs \<alpha> = Inr (vs ! nat \<lfloor>?f\<rfloor>)" by (simp add: getitem_in_range)
  from lo hi have b: "nat \<lfloor>?f\<rfloor> < ?L" by (simp only: nat_less_iff)
  have c: "\<bar>\<lfloor>?f\<rfloor> - \<lfloor>real ?L * \<alpha>\<rfloor>\<bar> \<le> 1"
  proof -
    from assms(5,6) L have "real ?L * \<alpha> \<le> real ?L" by (simp add: mult_left_le)
    moreover from assms(3) have "real ?L \<le> real (2 ^ 53)" by (simp only: of_nat_le_iff)
    ultimately have "real ?L * \<alpha> / 2 ^ 53 \<le> 1" by simp
    with r(3) have "\<bar>?f - real ?L * \<alpha>\<bar> \<le> 1" by linarith
    then show ?thesis by linarith
  qed
  from L have "value_at_risk vs 0 = Inr (vs ! 0)"
    by (simp add: value_at_risk_def float64_0 py_int_def getitem_def)
  with sorted_first_Min [OF assms(1,2)] have d: "value_at_risk vs 0 = Inr (Min (set vs))" by simp
  have e: "value_at_risk vs (float64 (5 / 100)) = Inr (vs ! 500)" if len: "length vs = 10000"
  proof -
    have "float64 (real (length vs)) = 10000" using len by (simp add: float64_numerals)
    moreover have "float64 (10000 * float64 (5 / 100)) = 500"
      unfolding float64_005 by (rule float64_10000_005)
    moreover have "py_int 500 = 500" by (simp add: py_int_def)
    ultimately have "value_at_risk vs (float64 (5 / 100)) = getitem vs 500"
      by (rule value_at_risk_eval)
    with len show ?thesis by (simp add: getitem_def)
  qed
  from a b c d e show ?thesis by blast
qed

theorem value_at_risk_index_witness:
  "value_at_risk (map real [0..<10000]) (float64 (5 / 100)) = Inr 500 \<and>
   value_at_risk (map real [0..<10000]) 0 = Inr 0 \<and>
   simulated_values [(4, 11), (-7, 12), (1, 13), (-2, 14)] = [-7, -2, 1, 4] \<and>
   value_at_risk (simulated_values [(4, 11), (-7, 12), (1, 13), (-2, 14)]) (1 / 2) = Inr 1 \<and>
   value_at_risk (simulated_values [(4, 11), (-7, 12), (1, 13), (-2, 14)]) 0 = Inr (-7)"
proof -
  have h1: "map real [0..<10000] \<noteq> []" by simp
  have h2: "length (map real [0..<10000]) \<le> 2 ^ 53" by simp
  have h4: "0 \<le> float64 (5 / 100)" unfolding float64_005 by simp
  have h5: "float64 (5 / 100) < 1" unfolding float64_005 by simp
  have len: "length (map real [0..<10000]) = 10000" by simp
  from value_at_risk_index [OF sorted_map_real_upt h1 h2 is_float64_005 h4 h5]
  have "length (map real [0..<10000]) = 10000 \<longrightarrow>
      value_at_risk (map real [0..<10000]) (float64 (5 / 100)) = Inr (map real [0..<10000] ! 500)"
    by blast
  with len have "value_at_risk (map real [0..<10000]) (float64 (5 / 100))
      = Inr (map real [0..<10000] ! 500)"
    by blast
  then have "value_at_risk (map real [0..<10000]) (float64 (5 / 100)) = Inr 500"
    by simp
  moreover have "value_at_risk (map real [0..<10000]) 0 = Inr 0"
    by (simp add: value_at_risk_def float64_0 float64_numerals py_int_def getitem_def)
  moreover have s: "simulated_values [(4, 11), (-7, 12), (1, 13), (-2, 14)] = [-7, -2, 1, 4]"
    by (simp add: simulated_values_def)
  moreover from value_at_risk_index [OF simulated_values_sorted,
      of "[(4, 11), (-7, 12), (1, 13), (-2, 14)]" "1 / 2"] is_float64_half
  have "value_at_risk (simulated_values [(4, 11), (-7, 12), (1, 13), (-2, 14)]) (1 / 2) = Inr 1 \<and>
        value_at_risk (simulated_values [(4, 11), (-7, 12), (1, 13), (-2, 14)]) 0 = Inr (-7)"
    by (simp add: s float64_2)
  ultimately show ?thesis by simp
qed

text \<open>C3 as stated fails: the index is not always \<open>floor(L * \<alpha>)\<close>. With \<open>L = 5\<close> and the
  float \<open>0.6\<close> the code reports the element at index 3, while the floor of the exact
  product of 5 and that float is 2; with \<open>L = 50\<close> and the float \<open>0.58\<close> the code reports
  the element at index 28, while \<open>floor(50 * 0.58) = 29\<close>.\<close>

theorem value_at_risk_floor_counterexample:
  "value_at_risk [0, 1, 2, 3, 4] (float64 (6 / 10)) = Inr 3 \<and>
   [0, 1, 2, 3, 4 :: real] ! nat \<lfloor>5 * float64 (6 / 10)\<rfloor> = 2 \<and>
   value_at_risk (map real [0..<50]) (float64 (58 / 100)) = Inr 28 \<and>
   map real [0..<50] ! nat \<lfloor>50 * (58 / 100 :: real)\<rfloor> = 29"
proof -
  have "float64 (real (length [0, 1, 2, 3, 4 :: real])) = 5" by (simp add: float64_numerals)
  moreover have "float64 (5 * float64 (6 / 10)) = 3"
    unfolding float64_06 by (rule float64_5_06)
  moreover have "py_int 3 = 3" by (simp add: py_int_def)
  ultimately have "value_at_risk [0, 1, 2, 3, 4] (float64 (6 / 10)) = getitem [0, 1, 2, 3, 4] 3"
    by (rule value_at_risk_eval)
  then have a: "value_at_risk [0, 1, 2, 3, 4] (float64 (6 / 10)) = Inr 3"
    by (simp add: getitem_def)
  have b: "[0, 1, 2, 3, 4 :: real] ! nat \<lfloor>5 * float64 (6 / 10)\<rfloor> = 2"
    unfolding float64_06 by simp
  have "float64 (real (length (map real [0..<50]))) = 50" by (simp add: float64_numerals)
  moreover have "float64 (50 * float64 (58 / 100)) = 8162774324609023 / 2 ^ 48"
    unfolding float64_058 by (rule float64_50_058)
  moreover have "py_int (8162774324609023 / 2 ^ 48) = 28" by (simp add: py_int_def)
  ultimately have "value_at_risk (map real [0..<50]) (float64 (58 / 100)) = getitem (map real [0..<50]) 28"
    by (rule value_at_risk_eval)
  then have c: "value_at_risk (map real [0..<50]) (float64 (58 / 100)) = Inr 28"
    by (simp add: getitem_def)
  have d: "map real [0..<50] ! nat \<lfloor>50 * (58 / 100 :: real)\<rfloor> = 29" by simp
  from a b c d show ?thesis by blast
qed

end
